theory Spec2Isabelle
  imports Main "HOL-Library.Multiset"
begin

section \<open>The repository selector of \<^verbatim>\<open>data_repository_tool.py\<close>\<close>

text \<open>
  The development embeds \<^verbatim>\<open>DataRepositoryTool._run\<close>; the catalog
  \<^verbatim>\<open>self.repositories\<close> is an argument. A repository descriptor is a Python
  \<^verbatim>\<open>Dict[str, str]\<close>, hence a partial map from keys to values.

  A Python string is modelled by the bytes of its UTF-8 encoding, a \<^typ>\<open>string\<close>: an
  ASCII character is one byte below 128, any other character is a run of bytes from 128
  on. Equality of strings is equality of the encodings, and \<^verbatim>\<open>w in s\<close> is the
  contiguous occurrence of the encoding of \<open>w\<close> in that of \<open>s\<close>. On a string of
  ASCII characters \<^verbatim>\<open>str.lower\<close> and \<^verbatim>\<open>str.split\<close> follow the ASCII rules
  written out below. On every other string they follow the Unicode tables of the Python
  runtime, which are no part of the repository: there the two operations are the
  parameters \<open>ul\<close> and \<open>usp\<close> of the model, and every general property below holds
  for all values of these parameters.

  The value returned by \<^verbatim>\<open>_run\<close> is a piece of text (two fixed messages, or the
  JSON rendering of the \<^verbatim>\<open>result\<close> dictionary); the model returns the data which
  that text renders, and an exception of the source is the \<open>Inl\<close> branch.
\<close>

subsection \<open>Strings\<close>

definition is_ascii :: "string \<Rightarrow> bool" where
  "is_ascii s = list_all (\<lambda>c. (of_char c :: nat) < 128) s"

text \<open>Lower case of an ASCII character: the letters A to Z move to a to z.\<close>

definition ascii_lower :: "char \<Rightarrow> char" where
  "ascii_lower c =
     (let n = (of_char c :: nat) in if 65 \<le> n \<and> n \<le> 90 then char_of (n + 32) else c)"

text \<open>
  \<^verbatim>\<open>s.lower()\<close>; \<open>ul\<close> is the lower case of a string with a character
  outside ASCII.
\<close>

definition lower :: "(string \<Rightarrow> string) \<Rightarrow> string \<Rightarrow> string" where
  "lower ul s = (if is_ascii s then map ascii_lower s else ul s)"

text \<open>
  The whitespace of ASCII: tab, line feed, vertical tab, form feed, carriage return, the
  four separators \<^verbatim>\<open>\x1c\<close> to \<^verbatim>\<open>\x1f\<close>, and space.
\<close>

definition ascii_space :: "char \<Rightarrow> bool" where
  "ascii_space c =
     (let n = (of_char c :: nat) in (9 \<le> n \<and> n \<le> 13) \<or> (28 \<le> n \<and> n \<le> 32))"

text \<open>
  The maximal runs of characters that are not whitespace, in order; the first argument
  is the token read so far.
\<close>

fun split_from :: "string \<Rightarrow> string \<Rightarrow> string list" where
  "split_from cur [] = (if cur = [] then [] else [cur])"
| "split_from cur (c # cs) =
     (if ascii_space c then (if cur = [] then split_from [] cs else cur # split_from [] cs)
      else split_from (cur @ [c]) cs)"

text \<open>
  \<^verbatim>\<open>s.split()\<close>; \<open>usp\<close> is the list of tokens of a string with a character
  outside ASCII.
\<close>

definition split :: "(string \<Rightarrow> string list) \<Rightarrow> string \<Rightarrow> string list" where
  "split usp s = (if is_ascii s then split_from [] s else usp s)"

fun startswith :: "string \<Rightarrow> string \<Rightarrow> bool" where
  "startswith s [] = True"
| "startswith [] (c # w) = False"
| "startswith (d # s) (c # w) = (d = c \<and> startswith s w)"

text \<open>\<^verbatim>\<open>w in s\<close> on strings: \<open>w\<close> occurs in \<open>s\<close> as a contiguous substring.\<close>

fun str_in :: "string \<Rightarrow> string \<Rightarrow> bool" where
  "str_in w [] = (w = [])"
| "str_in w (d # s) = (startswith (d # s) w \<or> str_in w s)"

text \<open>\<^verbatim>\<open>any(w in s for w in ws)\<close>\<close>

definition any_in :: "string list \<Rightarrow> string \<Rightarrow> bool" where
  "any_in ws s = list_ex (\<lambda>w. str_in w s) ws"

subsection \<open>Descriptors, recommendations and outcomes\<close>

type_synonym repo = "string \<rightharpoonup> string"

text \<open>\<^verbatim>\<open>repo.get(k, d)\<close>; \<^verbatim>\<open>repo.get(k)\<close> is the map itself, \<open>None\<close> when absent.\<close>

definition get_default :: "repo \<Rightarrow> string \<Rightarrow> string \<Rightarrow> string" where
  "get_default repo k d = (case repo k of None \<Rightarrow> d | Some v \<Rightarrow> v)"

datatype py_error = KeyError string | IndexError

text \<open>The dictionary appended to \<^verbatim>\<open>recommendations\<close> in the loop.\<close>

record recommendation =
  repository :: "string option"
  tool_name :: "string option"
  tool_type :: "string option"
  description :: "string option"
  score :: int

text \<open>An element of \<^verbatim>\<open>result["alternative_repositories"]\<close>.\<close>

record alternative =
  alt_repository :: "string option"
  alt_tool_name :: "string option"
  alt_score :: int

text \<open>
  The \<^verbatim>\<open>result\<close> dictionary; the key \<^verbatim>\<open>alternative_repositories\<close> is absent
  when the field is \<open>None\<close>.
\<close>

record result =
  recommended_repository :: "string option"
  res_tool_name :: "string option"
  res_tool_type :: "string option"
  res_description :: "string option"
  confidence :: string
  alternative_repositories :: "alternative list option"

text \<open>
  The three things \<^verbatim>\<open>_run\<close> returns: the message that no repository is
  configured, the message that nothing matched (it prints the query as given and the list
  of names), and the rendered \<^verbatim>\<open>result\<close>.
\<close>

datatype outcome =
  NoRepositoriesConfigured
| NoMatchFound string "string list"
| Recommendation result

subsection \<open>Scoring\<close>

text \<open>
  The conditions of the \<^verbatim>\<open>if\<close>/\<^verbatim>\<open>elif\<close> chain on the lowercased tool
  type, one per branch, and the chain itself.
\<close>

definition search_indicated :: "string \<Rightarrow> string \<Rightarrow> bool" where
  "search_indicated tool_type_l query_lower =
     (tool_type_l = ''search'' \<and> any_in [''search'', ''find'', ''look for''] query_lower)"

definition analyst_indicated :: "string \<Rightarrow> string \<Rightarrow> bool" where
  "analyst_indicated tool_type_l query_lower =
     (tool_type_l = ''analyst''
        \<and> any_in [''analyze'', ''analysis'', ''insight'', ''report''] query_lower)"

definition sql_indicated :: "string \<Rightarrow> string \<Rightarrow> bool" where
  "sql_indicated tool_type_l query_lower =
     (tool_type_l = ''sql'' \<and> any_in [''query'', ''select'', ''table'', ''database''] query_lower)"

definition agent_indicated :: "string \<Rightarrow> string \<Rightarrow> bool" where
  "agent_indicated tool_type_l query_lower =
     (tool_type_l = ''agent'' \<and> any_in [''agent'', ''assistant'', ''help''] query_lower)"

definition type_bonus :: "string \<Rightarrow> string \<Rightarrow> int" where
  "type_bonus tool_type_l query_lower =
     (if search_indicated tool_type_l query_lower then 2
      else if analyst_indicated tool_type_l query_lower then 2
      else if sql_indicated tool_type_l query_lower then 2
      else if agent_indicated tool_type_l query_lower then 2
      else 0)"

text \<open>The body of the loop up to the test \<^verbatim>\<open>score > 0\<close>.\<close>

definition score_repo ::
  "(string \<Rightarrow> string) \<Rightarrow> (string \<Rightarrow> string list) \<Rightarrow> string \<Rightarrow> repo \<Rightarrow> int" where
  "score_repo ul usp query_lower repo =
     (let repo_desc = lower ul (get_default repo ''description'' []);
          repo_name = lower ul (get_default repo ''name'' []);
          score0 = (if list_ex (\<lambda>keyword. str_in keyword repo_desc) (split usp query_lower)
                    then 2 else 0);
          score1 = (if list_ex (\<lambda>keyword. str_in keyword repo_name) (split usp query_lower)
                    then score0 + 1 else score0);
          tool_type_l = lower ul (get_default repo ''tool_type'' [])
      in score1 + type_bonus tool_type_l query_lower)"

definition make_recommendation :: "repo \<Rightarrow> int \<Rightarrow> recommendation" where
  "make_recommendation repo s =
     \<lparr>repository = repo ''name'', tool_name = repo ''tool_name'',
      tool_type = repo ''tool_type'', description = repo ''description'', score = s\<rparr>"

text \<open>The loop over \<^verbatim>\<open>self.repositories\<close>, appending in catalog order.\<close>

fun recommendations ::
  "(string \<Rightarrow> string) \<Rightarrow> (string \<Rightarrow> string list) \<Rightarrow> string \<Rightarrow> repo list
     \<Rightarrow> recommendation list" where
  "recommendations ul usp query_lower [] = []"
| "recommendations ul usp query_lower (repo # repos) =
     (let s = score_repo ul usp query_lower repo
      in if s > 0 then make_recommendation repo s # recommendations ul usp query_lower repos
         else recommendations ul usp query_lower repos)"

subsection \<open>The two returns\<close>

text \<open>
  \<^verbatim>\<open>[r['name'] for r in self.repositories]\<close>: subscripting raises
  \<^verbatim>\<open>KeyError\<close> at the first descriptor without the key.
\<close>

fun names :: "repo list \<Rightarrow> py_error + string list" where
  "names [] = Inr []"
| "names (r # rs) =
     (case r ''name'' of
        None \<Rightarrow> Inl (KeyError ''name'')
      | Some n \<Rightarrow> (case names rs of Inl e \<Rightarrow> Inl e | Inr ns \<Rightarrow> Inr (n # ns)))"

text \<open>
  \<^verbatim>\<open>recommendations.sort(key=lambda x: x["score"], reverse=True)\<close>: the sort of
  Python lists is stable, also with \<^verbatim>\<open>reverse=True\<close>, so the outcome is the stable
  sort by descending score, which is the stable ascending sort by the negated score.
\<close>

definition sort_by_score :: "recommendation list \<Rightarrow> recommendation list" where
  "sort_by_score recs = sort_key (\<lambda>x. - score x) recs"

definition make_alternative :: "recommendation \<Rightarrow> alternative" where
  "make_alternative r =
     \<lparr>alt_repository = repository r, alt_tool_name = tool_name r, alt_score = score r\<rparr>"

definition make_result :: "recommendation \<Rightarrow> recommendation list \<Rightarrow> result" where
  "make_result top_rec sorted_recs =
     \<lparr>recommended_repository = repository top_rec,
      res_tool_name = tool_name top_rec,
      res_tool_type = tool_type top_rec,
      res_description = description top_rec,
      confidence = (if score top_rec \<ge> 3 then ''high'' else ''medium''),
      alternative_repositories =
        (if length sorted_recs > 1
         then Some (map make_alternative (take 2 (drop 1 sorted_recs)))
         else None)\<rparr>"

definition run ::
  "(string \<Rightarrow> string) \<Rightarrow> (string \<Rightarrow> string list) \<Rightarrow> string \<Rightarrow> repo list
     \<Rightarrow> py_error + outcome" where
  "run ul usp user_query repositories =
     (if repositories = [] then Inr NoRepositoriesConfigured
      else
        let query_lower = lower ul user_query;
            recs = recommendations ul usp query_lower repositories
        in if recs = [] then
             (case names repositories of
                Inl e \<Rightarrow> Inl e
              | Inr ns \<Rightarrow> Inr (NoMatchFound user_query ns))
           else
             (case sort_by_score recs of
                [] \<Rightarrow> Inl IndexError
              | top_rec # rest \<Rightarrow>
                  Inr (Recommendation (make_result top_rec (top_rec # rest)))))"

subsection \<open>The catalog of \<^verbatim>\<open>data_routing_crew.py\<close>, first two entries\<close>

definition product_search :: repo where
  "product_search =
     [''name'' \<mapsto> ''Product Search'',
      ''description'' \<mapsto>
         ''Search service for product information, inventory, and catalog data'',
      ''tool_name'' \<mapsto> ''product-search'',
      ''tool_type'' \<mapsto> ''search'']"

definition revenue_analytics :: repo where
  "revenue_analytics =
     [''name'' \<mapsto> ''Revenue Analytics'',
      ''description'' \<mapsto>
         ''Semantic view for revenue analysis, sales data, and financial metrics'',
      ''tool_name'' \<mapsto> ''revenue-semantic-view'',
      ''tool_type'' \<mapsto> ''analyst'']"

section \<open>Properties\<close>

subsection \<open>The loop, the score and the sort\<close>

lemma recommendations_map_filter:
  "recommendations ul usp ql cat =
     map (\<lambda>repo. make_recommendation repo (score_repo ul usp ql repo))
       (filter (\<lambda>repo. score_repo ul usp ql repo > 0) cat)"
  by (induction cat) (simp_all add: Let_def)


lemma score_make_recommendation [simp]: "score (make_recommendation repo s) = s"
  by (simp add: make_recommendation_def)

lemma type_bonus_cases: "type_bonus t ql = 0 \<or> type_bonus t ql = 2"
  by (simp add: type_bonus_def)

lemma score_repo_sum:
  "score_repo ul usp ql repo =
       (if list_ex (\<lambda>keyword. str_in keyword (lower ul (get_default repo ''description'' [])))
             (split usp ql) then 2 else 0)
     + (if list_ex (\<lambda>keyword. str_in keyword (lower ul (get_default repo ''name'' [])))
             (split usp ql) then 1 else 0)
     + type_bonus (lower ul (get_default repo ''tool_type'' [])) ql"
  by (simp add: score_repo_def Let_def)

lemma score_repo_bounds: "0 \<le> score_repo ul usp ql repo \<and> score_repo ul usp ql repo \<le> 5"
  using type_bonus_cases [of "lower ul (get_default repo ''tool_type'' [])" ql]
  by (auto simp: score_repo_def Let_def)

lemma indicated_exclusive:
  "length (filter id [search_indicated t ql, analyst_indicated t ql,
                      sql_indicated t ql, agent_indicated t ql]) \<le> 1"
  by (auto simp: search_indicated_def analyst_indicated_def sql_indicated_def agent_indicated_def)

lemma type_bonus_count:
  "type_bonus t ql = 2 * int (length (filter id [search_indicated t ql, analyst_indicated t ql,
                      sql_indicated t ql, agent_indicated t ql]))"
  by (auto simp: type_bonus_def search_indicated_def analyst_indicated_def sql_indicated_def agent_indicated_def)

lemma lower_tags:
  "lower ul ''search'' = ''search''" "lower ul ''analyst'' = ''analyst''"
  "lower ul ''sql'' = ''sql''" "lower ul ''agent'' = ''agent''"
  by code_simp+

lemma sort_by_score_mset: "mset (sort_by_score recs) = mset recs"
  by (simp add: sort_by_score_def)

lemma sort_by_score_sorted:
  "sorted_wrt (\<lambda>a b. score a \<ge> score b) (sort_by_score recs)"
proof -
  have "sorted (map (\<lambda>x. - score x) (sort_by_score recs))"
    by (simp add: sort_by_score_def)
  then show ?thesis
    by (simp add: sorted_wrt_map sorted_wrt_iff_nth_less sorted_iff_nth_mono_less) 
qed





lemma sort_by_score_Nil: "sort_by_score recs = [] \<longleftrightarrow> recs = []"
  using sort_by_score_mset [of recs] by (metis mset_zero_iff)

lemma sorted_desc_hd_max:
  assumes "sort_by_score recs = top_rec # rest"
  shows "\<forall>r \<in> set recs. score r \<le> score top_rec" "top_rec \<in> set recs"
proof -
  have s: "set recs = set (top_rec # rest)"
    using sort_by_score_mset [of recs] assms by (metis mset_eq_setD)
  have "sorted_wrt (\<lambda>a b. score a \<ge> score b) (top_rec # rest)"
    using sort_by_score_sorted [of recs] assms by simp
  then show "\<forall>r \<in> set recs. score r \<le> score top_rec" using s by auto
  show "top_rec \<in> set recs" using s by simp
qed

lemma run_recommendation:
  assumes "recommendations ul usp (lower ul q) cat \<noteq> []"
  shows "\<exists>top_rec rest. sort_by_score (recommendations ul usp (lower ul q) cat) = top_rec # rest
           \<and> run ul usp q cat = Inr (Recommendation (make_result top_rec (top_rec # rest)))"
proof -
  from assms have c: "cat \<noteq> []" by auto
  from assms obtain top_rec rest where s: "sort_by_score (recommendations ul usp (lower ul q) cat) = top_rec # rest"
    using sort_by_score_Nil [of "recommendations ul usp (lower ul q) cat"] by (meson list.exhaust)
  with assms c have "run ul usp q cat = Inr (Recommendation (make_result top_rec (top_rec # rest)))"
    by (simp add: run_def Let_def)
  with s show ?thesis by blast
qed

lemma run_Recommendation_iff:
  assumes "run ul usp q cat = Inr (Recommendation r)"
  shows "recommendations ul usp (lower ul q) cat \<noteq> []"
  using assms by (auto simp: run_def Let_def split: if_splits sum.splits)

subsection \<open>The empty catalog\<close>

text \<open>
  Claim C8. With an empty catalog \<^verbatim>\<open>_run\<close> returns the message that no repository
  is configured, whatever the query is (the empty string included).
\<close>

theorem run_empty_catalog: "run ul usp q [] = Inr NoRepositoriesConfigured"
  by (simp add: run_def)

subsection \<open>The parts of a score\<close>

text \<open>
  Claim C4. The score of a descriptor is the sum of the description points (2 or 0), the
  name points (1 or 0) and the type bonus; the type bonus is 2 for each branch condition
  of the chain that holds, at most one of the four conditions holds for a descriptor and
  a query, and the score is at most 5.
\<close>

theorem score_repo_structure:
  "score_repo ul usp ql repo =
       (if list_ex (\<lambda>keyword. str_in keyword (lower ul (get_default repo ''description'' [])))
             (split usp ql) then 2 else 0)
     + (if list_ex (\<lambda>keyword. str_in keyword (lower ul (get_default repo ''name'' [])))
             (split usp ql) then 1 else 0)
     + type_bonus (lower ul (get_default repo ''tool_type'' [])) ql
   \<and> type_bonus (lower ul (get_default repo ''tool_type'' [])) ql =
       2 * int (length (filter id
         [search_indicated (lower ul (get_default repo ''tool_type'' [])) ql,
          analyst_indicated (lower ul (get_default repo ''tool_type'' [])) ql,
          sql_indicated (lower ul (get_default repo ''tool_type'' [])) ql,
          agent_indicated (lower ul (get_default repo ''tool_type'' [])) ql]))
   \<and> length (filter id
         [search_indicated (lower ul (get_default repo ''tool_type'' [])) ql,
          analyst_indicated (lower ul (get_default repo ''tool_type'' [])) ql,
          sql_indicated (lower ul (get_default repo ''tool_type'' [])) ql,
          agent_indicated (lower ul (get_default repo ''tool_type'' [])) ql]) \<le> 1
   \<and> score_repo ul usp ql repo \<le> 5"
proof -
  have "score_repo ul usp ql repo =
       (if list_ex (\<lambda>keyword. str_in keyword (lower ul (get_default repo ''description'' [])))
             (split usp ql) then 2 else 0)
     + (if list_ex (\<lambda>keyword. str_in keyword (lower ul (get_default repo ''name'' [])))
             (split usp ql) then 1 else 0)
     + type_bonus (lower ul (get_default repo ''tool_type'' [])) ql"
    by (simp add: score_repo_def Let_def)
  then show ?thesis
    using type_bonus_count indicated_exclusive score_repo_bounds by blast
qed

text \<open>
  An instance where all three parts are awarded. Here and in the other closed instances
  below every string is ASCII, so the two parameters are not consulted; they are set to
  the ASCII rules.
\<close>

theorem score_repo_structure_witness:
  "score_repo (map ascii_lower) (split_from [])
      (lower (map ascii_lower) ''find the sales table'')
      [''name'' \<mapsto> ''Sales'', ''description'' \<mapsto> ''Sales orders'', ''tool_type'' \<mapsto> ''sql''] = 5
   \<and> type_bonus ''sql'' (lower (map ascii_lower) ''find the sales table'') = 2
   \<and> \<not> search_indicated ''sql'' (lower (map ascii_lower) ''find the sales table'')
   \<and> sql_indicated ''sql'' (lower (map ascii_lower) ''find the sales table'')"
proof -
  let ?ul = "map ascii_lower"
  let ?usp = "split_from []"
  let ?repo = "[''name'' \<mapsto> ''Sales'', ''description'' \<mapsto> ''Sales orders'', ''tool_type'' \<mapsto> ''sql'']"
  let ?ql = "lower ?ul ''find the sales table''"
  have a: "lower ?ul (get_default ?repo ''tool_type'' []) = ''sql''" by code_simp
  have b: "list_ex (\<lambda>keyword. str_in keyword (lower ?ul (get_default ?repo ''description'' [])))
             (split ?usp ?ql)"
    by code_simp
  have c: "list_ex (\<lambda>keyword. str_in keyword (lower ?ul (get_default ?repo ''name'' [])))
             (split ?usp ?ql)"
    by code_simp
  have d: "\<not> search_indicated ''sql'' ?ql" by code_simp
  have e: "sql_indicated ''sql'' ?ql" by code_simp
  have f: "\<not> analyst_indicated ''sql'' ?ql" by code_simp
  have g: "\<not> agent_indicated ''sql'' ?ql" by code_simp
  show ?thesis
    using score_repo_structure [of ?ul ?usp ?ql ?repo] a b c d e f g by simp
qed

subsection \<open>The tool type is compared in lower case\<close>

text \<open>
  Claim C10. The tool type of the descriptor is lowercased before the comparison. For a
  descriptor whose tool type \<open>t\<close> lowercases to one of the four tags, and a query
  whose lowercase form contains one of the trigger words of that tag, the type bonus is 2
  and it is part of the score: the score is the description points plus the name points
  plus 2, and it is the score the same descriptor receives with the tag in lower case.
\<close>

theorem tool_type_case_insensitive:
  assumes "repo ''tool_type'' = Some t"
      and "(lower ul t = ''search'' \<and> any_in [''search'', ''find'', ''look for''] (lower ul q))
         \<or> (lower ul t = ''analyst''
              \<and> any_in [''analyze'', ''analysis'', ''insight'', ''report''] (lower ul q))
         \<or> (lower ul t = ''sql''
              \<and> any_in [''query'', ''select'', ''table'', ''database''] (lower ul q))
         \<or> (lower ul t = ''agent'' \<and> any_in [''agent'', ''assistant'', ''help''] (lower ul q))"
  shows "score_repo ul usp (lower ul q) repo =
           (if list_ex (\<lambda>keyword. str_in keyword (lower ul (get_default repo ''description'' [])))
                 (split usp (lower ul q)) then 2 else 0)
         + (if list_ex (\<lambda>keyword. str_in keyword (lower ul (get_default repo ''name'' [])))
                 (split usp (lower ul q)) then 1 else 0)
         + 2
       \<and> score_repo ul usp (lower ul q) repo
           = score_repo ul usp (lower ul q) (repo(''tool_type'' \<mapsto> lower ul t))"
proof -
  let ?ql = "lower ul q"
  have g: "get_default repo ''tool_type'' [] = t"
    using assms(1) by (simp add: get_default_def)
  have idem: "lower ul (lower ul t) = lower ul t"
    using assms(2) lower_tags [of ul] by auto
  have bonus: "type_bonus (lower ul t) ?ql = 2"
    using assms(2)
    by (auto simp: type_bonus_def search_indicated_def analyst_indicated_def
          sql_indicated_def agent_indicated_def)
  have g': "get_default (repo(''tool_type'' \<mapsto> lower ul t)) ''tool_type'' [] = lower ul t"
           "get_default (repo(''tool_type'' \<mapsto> lower ul t)) ''description'' []
              = get_default repo ''description'' []"
           "get_default (repo(''tool_type'' \<mapsto> lower ul t)) ''name'' []
              = get_default repo ''name'' []"
    by (simp_all add: get_default_def)
  have 1: "score_repo ul usp ?ql repo =
           (if list_ex (\<lambda>keyword. str_in keyword (lower ul (get_default repo ''description'' [])))
                 (split usp ?ql) then 2 else 0)
         + (if list_ex (\<lambda>keyword. str_in keyword (lower ul (get_default repo ''name'' [])))
                 (split usp ?ql) then 1 else 0)
         + 2"
    unfolding score_repo_sum g bonus ..
  have 2: "score_repo ul usp ?ql repo
             = score_repo ul usp ?ql (repo(''tool_type'' \<mapsto> lower ul t))"
    unfolding score_repo_sum g g' idem ..
  from 1 2 show ?thesis ..
qed

theorem tool_type_case_insensitive_witness:
  "(product_search(''tool_type'' \<mapsto> ''Search'')) ''tool_type'' = Some ''Search''
   \<and> lower (map ascii_lower) ''Search'' = ''search''
   \<and> any_in [''search'', ''find'', ''look for''] (lower (map ascii_lower) ''Find red shoes'')
   \<and> score_repo (map ascii_lower) (split_from []) (lower (map ascii_lower) ''Find red shoes'')
        (product_search(''tool_type'' \<mapsto> ''Search'')) = 2
   \<and> score_repo (map ascii_lower) (split_from []) (lower (map ascii_lower) ''Find red shoes'')
        (product_search(''tool_type'' \<mapsto> ''search'')) = 2"
proof -
  let ?ul = "map ascii_lower"
  let ?usp = "split_from []"
  let ?q = "''Find red shoes''"
  let ?repo = "product_search(''tool_type'' \<mapsto> ''Search'')"
  have a: "?repo ''tool_type'' = Some ''Search''" by simp
  have b: "lower ?ul ''Search'' = ''search''" by code_simp
  have c: "any_in [''search'', ''find'', ''look for''] (lower ?ul ?q)" by code_simp
  have d: "\<not> list_ex (\<lambda>keyword. str_in keyword (lower ?ul (get_default ?repo ''description'' [])))
                 (split ?usp (lower ?ul ?q))" by code_simp
  have e: "\<not> list_ex (\<lambda>keyword. str_in keyword (lower ?ul (get_default ?repo ''name'' [])))
                 (split ?usp (lower ?ul ?q))" by code_simp
  note t = tool_type_case_insensitive [of ?repo "''Search''" ?ul ?q ?usp, OF a disjI1 [OF conjI [OF b c]]]
  have 1: "score_repo ?ul ?usp (lower ?ul ?q) ?repo = 2"
    using t [THEN conjunct1] d e by simp
  have "score_repo ?ul ?usp (lower ?ul ?q) (?repo(''tool_type'' \<mapsto> lower ?ul ''Search'')) = 2"
    using t [THEN conjunct2] 1 by simp
  then have 2: "score_repo ?ul ?usp (lower ?ul ?q) (product_search(''tool_type'' \<mapsto> ''search'')) = 2"
    unfolding b by simp
  from a b c 1 2 show ?thesis by (intro conjI)
qed

subsection \<open>The confidence label\<close>

lemma set_recommendations:
  "set (recommendations ul usp ql cat) =
     (\<lambda>repo. make_recommendation repo (score_repo ul usp ql repo)) ` {repo \<in> set cat. score_repo ul usp ql repo > 0}"
  by (auto simp: recommendations_map_filter)

lemma recommendations_positive: "r \<in> set (recommendations ul usp ql cat) \<Longrightarrow> score r > 0"
  by (auto simp: set_recommendations)

lemma recommendations_Nil_iff:
  "recommendations ul usp ql cat = [] \<longleftrightarrow> (\<forall>repo \<in> set cat. \<not> score_repo ul usp ql repo > 0)"
  by (simp add: recommendations_map_filter filter_empty_conv)

lemma top_score_is_Max:
  assumes "sort_by_score (recommendations ul usp ql cat) = top_rec # rest"
  shows "score top_rec = Max (score_repo ul usp ql ` set cat)"
proof -
  note m = sorted_desc_hd_max [OF assms]
  from m(2) obtain repo0 where r0: "repo0 \<in> set cat" "score_repo ul usp ql repo0 > 0"
      "top_rec = make_recommendation repo0 (score_repo ul usp ql repo0)"
    by (auto simp: set_recommendations)
  have "score_repo ul usp ql repo \<le> score top_rec" if "repo \<in> set cat" for repo
  proof (cases "score_repo ul usp ql repo > 0")
    case True
    with that have "make_recommendation repo (score_repo ul usp ql repo) \<in> set (recommendations ul usp ql cat)"
      by (auto simp: set_recommendations)
    with m(1) show ?thesis by fastforce
  next
    case False
    with r0 show ?thesis by simp
  qed
  moreover have "score top_rec \<in> score_repo ul usp ql ` set cat" using r0 by simp
  ultimately show ?thesis by (intro Max_eqI [symmetric]) auto
qed

lemma confidence_make_result:
  "confidence (make_result top_rec recs) = (if score top_rec \<ge> 3 then ''high'' else ''medium'')"
  by (simp add: make_result_def)

text \<open>
  Claim C6. When some descriptor of the catalog scores above zero, \<^verbatim>\<open>_run\<close> returns
  a recommendation; its confidence is \<open>high\<close> exactly when the highest score in the
  catalog (the score of the top entry) is at least 3, and \<open>medium\<close> exactly when that
  score is 1 or 2.
\<close>

theorem confidence_threshold:
  assumes "\<exists>repo \<in> set cat. score_repo ul usp (lower ul q) repo > 0"
  shows "\<exists>r. run ul usp q cat = Inr (Recommendation r)
           \<and> (confidence r = ''high'' \<longleftrightarrow> Max (score_repo ul usp (lower ul q) ` set cat) \<ge> 3)
           \<and> (confidence r = ''medium'' \<longleftrightarrow>
                 Max (score_repo ul usp (lower ul q) ` set cat) = 1 \<or> Max (score_repo ul usp (lower ul q) ` set cat) = 2)"
proof -
  from assms have "recommendations ul usp (lower ul q) cat \<noteq> []"
    by (simp add: recommendations_Nil_iff)
  from run_recommendation [OF this] obtain top_rec rest
    where s: "sort_by_score (recommendations ul usp (lower ul q) cat) = top_rec # rest"
      and r: "run ul usp q cat = Inr (Recommendation (make_result top_rec (top_rec # rest)))"
    by blast
  have mx: "score top_rec = Max (score_repo ul usp (lower ul q) ` set cat)"
    using s by (rule top_score_is_Max)
  have "top_rec \<in> set (recommendations ul usp (lower ul q) cat)"
    using sorted_desc_hd_max(2) [OF s] .
  then have pos: "score top_rec > 0" by (rule recommendations_positive)
  let ?r = "make_result top_rec (top_rec # rest)"
  have h: "confidence ?r = ''high'' \<longleftrightarrow> score top_rec \<ge> 3"
    by (simp add: confidence_make_result)
  have m: "confidence ?r = ''medium'' \<longleftrightarrow> score top_rec = 1 \<or> score top_rec = 2"
    using pos by (auto simp: confidence_make_result)
  from r h m show ?thesis unfolding mx by blast
qed

theorem confidence_threshold_witness:
  "(\<exists>repo \<in> set [product_search, revenue_analytics].
       score_repo (map ascii_lower) (split_from [])
         (lower (map ascii_lower) ''analyze our revenue report'') repo > 0)
   \<and> Max (score_repo (map ascii_lower) (split_from [])
             (lower (map ascii_lower) ''analyze our revenue report'')
             ` set [product_search, revenue_analytics]) = 5
   \<and> (\<exists>r. run (map ascii_lower) (split_from []) ''analyze our revenue report''
                [product_search, revenue_analytics]
              = Inr (Recommendation r)
           \<and> confidence r = ''high'')"
proof -
  let ?ul = "map ascii_lower"
  let ?usp = "split_from []"
  let ?ql = "lower ?ul ''analyze our revenue report''"
  have a: "score_repo ?ul ?usp ?ql product_search = 0" by code_simp
  have b: "score_repo ?ul ?usp ?ql revenue_analytics = 5" by code_simp
  have h: "\<exists>repo \<in> set [product_search, revenue_analytics]. score_repo ?ul ?usp ?ql repo > 0"
    using b by simp
  have m: "Max (score_repo ?ul ?usp ?ql ` set [product_search, revenue_analytics]) = 5"
    using a b by simp
  from confidence_threshold [OF h] obtain r
    where "run ?ul ?usp ''analyze our revenue report'' [product_search, revenue_analytics]
             = Inr (Recommendation r)"
      and "confidence r = ''high'' \<longleftrightarrow>
             Max (score_repo ?ul ?usp ?ql ` set [product_search, revenue_analytics]) \<ge> 3"
    by blast
  with m have "\<exists>r. run ?ul ?usp ''analyze our revenue report'' [product_search, revenue_analytics]
              = Inr (Recommendation r) \<and> confidence r = ''high''"
    by auto
  with h m show ?thesis by (intro conjI)
qed

subsection \<open>The alternatives\<close>

lemma mset_take_subset: "mset (take n xs) \<subseteq># mset xs"
proof -
  have "mset xs = mset (take n xs) + mset (drop n xs)"
    by (metis append_take_drop_id mset_append)
  then show ?thesis by simp
qed

lemma make_result_alternatives:
  "alternative_repositories (make_result top_rec (top_rec # rest)) =
     (if rest \<noteq> [] then Some (map make_alternative (take 2 rest)) else None)"
  by (simp add: make_result_def)

lemma length_recommendations:
  "length (recommendations ul usp ql cat) = length (filter (\<lambda>repo. score_repo ul usp ql repo > 0) cat)"
  by (simp add: recommendations_map_filter)

lemma recommendation_source:
  assumes "x \<in> set (recommendations ul usp ql cat)"
  shows "score x > 0 \<and> (\<exists>repo \<in> set cat. score_repo ul usp ql repo = score x
           \<and> repo ''name'' = repository x \<and> repo ''tool_name'' = tool_name x)"
  using assms by (auto simp: set_recommendations make_recommendation_def)

lemma distinct_repository:
  assumes "distinct (map (\<lambda>repo. repo ''name'')
                 (filter (\<lambda>repo. score_repo ul usp ql repo > 0) cat))"
  shows "distinct (map repository (recommendations ul usp ql cat))"
proof -
  have "map repository (recommendations ul usp ql cat) =
          map (\<lambda>repo. repo ''name'') (filter (\<lambda>repo. score_repo ul usp ql repo > 0) cat)"
    by (simp add: recommendations_map_filter make_recommendation_def comp_def)
  with assms show ?thesis by simp
qed

text \<open>
  Claim C7, as the code has it. In a returned recommendation the ranked list is the top
  entry followed by the rest; the key \<^verbatim>\<open>alternative_repositories\<close> is present
  exactly when more than one descriptor scored above zero; when present it is built from
  the first two entries of the rest, so it has at most two elements, it draws on the
  scored entries other than the top one (as multisets: a descriptor listed twice is two
  entries), and each element carries a positive score and the name and tool name of a
  descriptor of the catalog with that score. When the descriptors that score above zero
  have pairwise distinct names, the recommended name is not among the alternatives.
\<close>

theorem alternatives_shape:
  assumes "run ul usp q cat = Inr (Recommendation r)"
  shows "\<exists>top_rec rest.
      sort_by_score (recommendations ul usp (lower ul q) cat) = top_rec # rest
    \<and> recommended_repository r = repository top_rec
    \<and> mset (top_rec # rest) = mset (recommendations ul usp (lower ul q) cat)
    \<and> (alternative_repositories r \<noteq> None \<longleftrightarrow>
         length (filter (\<lambda>repo. score_repo ul usp (lower ul q) repo > 0) cat) > 1)
    \<and> (\<forall>alts. alternative_repositories r = Some alts \<longrightarrow>
          alts = map make_alternative (take 2 rest)
        \<and> length alts \<le> 2
        \<and> mset (take 2 rest) \<subseteq># mset (recommendations ul usp (lower ul q) cat) - {#top_rec#}
        \<and> (\<forall>a \<in> set alts. alt_score a > 0
              \<and> (\<exists>repo \<in> set cat. score_repo ul usp (lower ul q) repo = alt_score a
                    \<and> repo ''name'' = alt_repository a \<and> repo ''tool_name'' = alt_tool_name a))
        \<and> (distinct (map (\<lambda>repo. repo ''name'')
                 (filter (\<lambda>repo. score_repo ul usp (lower ul q) repo > 0) cat))
              \<longrightarrow> recommended_repository r \<notin> alt_repository ` set alts))"
proof -
  let ?recs = "recommendations ul usp (lower ul q) cat"
  from assms have ne: "?recs \<noteq> []" by (rule run_Recommendation_iff)
  from run_recommendation [OF ne] assms obtain top_rec rest
    where s: "sort_by_score ?recs = top_rec # rest"
      and r: "r = make_result top_rec (top_rec # rest)"
    by auto
  have ms: "mset (top_rec # rest) = mset ?recs"
    using sort_by_score_mset [of ?recs] s by simp
  then have len: "length ?recs = Suc (length rest)"
    by (metis length_Cons size_mset)
  have rr: "recommended_repository r = repository top_rec"
    by (simp add: r make_result_def)
  have pres: "alternative_repositories r \<noteq> None \<longleftrightarrow>
         length (filter (\<lambda>repo. score_repo ul usp (lower ul q) repo > 0) cat) > 1"
    using len by (simp add: r make_result_alternatives length_recommendations [symmetric])
  have sub: "mset (take 2 rest) \<subseteq># mset ?recs - {#top_rec#}"
    using mset_take_subset [of 2 rest] ms [symmetric] by simp
  have src: "alt_score a > 0
              \<and> (\<exists>repo \<in> set cat. score_repo ul usp (lower ul q) repo = alt_score a
                    \<and> repo ''name'' = alt_repository a \<and> repo ''tool_name'' = alt_tool_name a)"
    if "a \<in> set (map make_alternative (take 2 rest))" for a
  proof -
    from that obtain x where x: "x \<in> set (take 2 rest)" "a = make_alternative x" by auto
    from x(1) have "x \<in> set rest" by (rule in_set_takeD)
    then have "x \<in> set ?recs" using ms by (metis list.set_intros(2) mset_eq_setD)
    from recommendation_source [OF this] show ?thesis
      by (simp add: x(2) make_alternative_def)
  qed
  have dis: "recommended_repository r \<notin> alt_repository ` set (map make_alternative (take 2 rest))"
    if d: "distinct (map (\<lambda>repo. repo ''name'')
                 (filter (\<lambda>repo. score_repo ul usp (lower ul q) repo > 0) cat))"
  proof -
    have "distinct (map repository ?recs)" using d by (rule distinct_repository)
    moreover have "mset (map repository (top_rec # rest)) = mset (map repository ?recs)"
      using ms by (metis mset_map)
    ultimately have "distinct (map repository (top_rec # rest))"
      by (metis mset_eq_imp_distinct_iff)
    then have "repository top_rec \<notin> repository ` set rest" by simp
    moreover have "alt_repository ` set (map make_alternative (take 2 rest)) \<subseteq> repository ` set rest"
      by (auto simp: make_alternative_def dest: in_set_takeD)
    ultimately show ?thesis using rr by auto
  qed
  have alts: "\<forall>alts. alternative_repositories r = Some alts \<longrightarrow>
          alts = map make_alternative (take 2 rest)
        \<and> length alts \<le> 2
        \<and> mset (take 2 rest) \<subseteq># mset ?recs - {#top_rec#}
        \<and> (\<forall>a \<in> set alts. alt_score a > 0
              \<and> (\<exists>repo \<in> set cat. score_repo ul usp (lower ul q) repo = alt_score a
                    \<and> repo ''name'' = alt_repository a \<and> repo ''tool_name'' = alt_tool_name a))
        \<and> (distinct (map (\<lambda>repo. repo ''name'')
                 (filter (\<lambda>repo. score_repo ul usp (lower ul q) repo > 0) cat))
              \<longrightarrow> recommended_repository r \<notin> alt_repository ` set alts)"
  proof (intro allI impI)
    fix alts assume "alternative_repositories r = Some alts"
    then have e: "alts = map make_alternative (take 2 rest)"
      by (simp add: r make_result_alternatives split: if_splits)
    have l: "length alts \<le> 2" by (simp add: e)
    from e l sub src dis show "alts = map make_alternative (take 2 rest)
        \<and> length alts \<le> 2
        \<and> mset (take 2 rest) \<subseteq># mset ?recs - {#top_rec#}
        \<and> (\<forall>a \<in> set alts. alt_score a > 0
              \<and> (\<exists>repo \<in> set cat. score_repo ul usp (lower ul q) repo = alt_score a
                    \<and> repo ''name'' = alt_repository a \<and> repo ''tool_name'' = alt_tool_name a))
        \<and> (distinct (map (\<lambda>repo. repo ''name'')
                 (filter (\<lambda>repo. score_repo ul usp (lower ul q) repo > 0) cat))
              \<longrightarrow> recommended_repository r \<notin> alt_repository ` set alts)"
      by blast
  qed
  from s rr ms pres alts show ?thesis by blast
qed

theorem alternatives_shape_witness:
  "run (map ascii_lower) (split_from []) ''What products are available in our inventory?''
       [product_search, revenue_analytics]
     = Inr (Recommendation
        \<lparr>recommended_repository = Some ''Product Search'',
         res_tool_name = Some ''product-search'',
         res_tool_type = Some ''search'',
         res_description =
           Some ''Search service for product information, inventory, and catalog data'',
         confidence = ''medium'',
         alternative_repositories =
           Some [\<lparr>alt_repository = Some ''Revenue Analytics'',
                  alt_tool_name = Some ''revenue-semantic-view'', alt_score = 2\<rparr>]\<rparr>)
   \<and> distinct (map (\<lambda>repo. repo ''name'')
        (filter (\<lambda>repo. score_repo (map ascii_lower) (split_from [])
                   (lower (map ascii_lower) ''What products are available in our inventory?'')
                   repo > 0)
           [product_search, revenue_analytics]))
   \<and> length (filter (\<lambda>repo. score_repo (map ascii_lower) (split_from [])
                 (lower (map ascii_lower) ''What products are available in our inventory?'')
                 repo > 0)
               [product_search, revenue_analytics]) > 1
   \<and> Some ''Product Search'' \<notin> alt_repository `
         set [\<lparr>alt_repository = Some ''Revenue Analytics'',
                alt_tool_name = Some ''revenue-semantic-view'', alt_score = 2\<rparr>]"
proof -
  let ?ul = "map ascii_lower"
  let ?usp = "split_from []"
  let ?q = "''What products are available in our inventory?''"
  let ?cat = "[product_search, revenue_analytics]"
  let ?pos = "filter (\<lambda>repo. score_repo ?ul ?usp (lower ?ul ?q) repo > 0) ?cat"
  let ?alts = "[\<lparr>alt_repository = Some ''Revenue Analytics'',
                alt_tool_name = Some ''revenue-semantic-view'', alt_score = 2\<rparr>]"
  let ?r = "\<lparr>recommended_repository = Some ''Product Search'',
         res_tool_name = Some ''product-search'',
         res_tool_type = Some ''search'',
         res_description =
           Some ''Search service for product information, inventory, and catalog data'',
         confidence = ''medium'',
         alternative_repositories = Some ?alts\<rparr>"
  have a: "run ?ul ?usp ?q ?cat = Inr (Recommendation ?r)" by code_simp
  have d: "distinct (map (\<lambda>repo. repo ''name'') ?pos)" by code_simp
  have b: "alternative_repositories ?r = Some ?alts" by simp
  have c: "alternative_repositories ?r \<noteq> None" by simp
  have e: "recommended_repository ?r = Some ''Product Search''" by simp
  from alternatives_shape [OF a] obtain top_rec rest
    where p: "alternative_repositories ?r \<noteq> None \<longleftrightarrow> length ?pos > 1"
      and al: "\<forall>alts. alternative_repositories ?r = Some alts \<longrightarrow>
          alts = map make_alternative (take 2 rest)
        \<and> length alts \<le> 2
        \<and> mset (take 2 rest)
             \<subseteq># mset (recommendations ?ul ?usp (lower ?ul ?q) ?cat) - {#top_rec#}
        \<and> (\<forall>a \<in> set alts. alt_score a > 0
              \<and> (\<exists>repo \<in> set ?cat. score_repo ?ul ?usp (lower ?ul ?q) repo = alt_score a
                    \<and> repo ''name'' = alt_repository a \<and> repo ''tool_name'' = alt_tool_name a))
        \<and> (distinct (map (\<lambda>repo. repo ''name'') ?pos)
              \<longrightarrow> recommended_repository ?r \<notin> alt_repository ` set alts)"
    by (elim exE conjE)
  from p c have n: "length ?pos > 1"
    by (rule iffD1)
  from al [rule_format, OF b] d have "recommended_repository ?r \<notin> alt_repository ` set ?alts"
    by (elim conjE) (erule (1) mp)
  then have x: "Some ''Product Search'' \<notin> alt_repository ` set ?alts"
    unfolding e .
  from a d n x show ?thesis by (intro conjI)
qed

text \<open>
  The claim as stated has no condition on the names. A descriptor listed twice in the
  catalog is recommended and is its own alternative.
\<close>

theorem alternatives_shape_counterexample:
  "run (map ascii_lower) (split_from []) ''search'' [product_search, product_search]
     = Inr (Recommendation
        \<lparr>recommended_repository = Some ''Product Search'',
         res_tool_name = Some ''product-search'',
         res_tool_type = Some ''search'',
         res_description =
           Some ''Search service for product information, inventory, and catalog data'',
         confidence = ''high'',
         alternative_repositories =
           Some [\<lparr>alt_repository = Some ''Product Search'',
                  alt_tool_name = Some ''product-search'', alt_score = 5\<rparr>]\<rparr>)
   \<and> Some ''Product Search'' \<in> alt_repository `
         set [\<lparr>alt_repository = Some ''Product Search'',
                alt_tool_name = Some ''product-search'', alt_score = 5\<rparr>]"
proof -
  have a: "run (map ascii_lower) (split_from []) ''search'' [product_search, product_search]
     = Inr (Recommendation
        \<lparr>recommended_repository = Some ''Product Search'',
         res_tool_name = Some ''product-search'',
         res_tool_type = Some ''search'',
         res_description =
           Some ''Search service for product information, inventory, and catalog data'',
         confidence = ''high'',
         alternative_repositories =
           Some [\<lparr>alt_repository = Some ''Product Search'',
                  alt_tool_name = Some ''product-search'', alt_score = 5\<rparr>]\<rparr>)"
    by code_simp
  have b: "Some ''Product Search'' \<in> alt_repository `
         set [\<lparr>alt_repository = Some ''Product Search'',
                alt_tool_name = Some ''product-search'', alt_score = 5\<rparr>]"
    by simp
  from a b show ?thesis ..
qed

subsection \<open>Ties\<close>








subsection \<open>Queries that differ in case only\<close>

text \<open>
  Claim C9, as the code has it. Two queries with the same lowercase form are scored
  alike: the scored entries are the same, a recommendation returned for one is returned
  for the other, and so are the message of the empty catalog and an exception. When
  nothing matches, both return the no-match message with the same list of names, each
  with its own query as it was given.
\<close>

theorem equal_lowercase_same_outcome:
  assumes "lower ul q1 = lower ul q2"
  shows "recommendations ul usp (lower ul q1) cat = recommendations ul usp (lower ul q2) cat
     \<and> (\<forall>r. run ul usp q1 cat = Inr (Recommendation r) \<longrightarrow> run ul usp q2 cat = Inr (Recommendation r))
     \<and> (run ul usp q1 cat = Inr NoRepositoriesConfigured \<longrightarrow> run ul usp q2 cat = Inr NoRepositoriesConfigured)
     \<and> (\<forall>q ns. run ul usp q1 cat = Inr (NoMatchFound q ns)
            \<longrightarrow> q = q1 \<and> run ul usp q2 cat = Inr (NoMatchFound q2 ns))
     \<and> (\<forall>e. run ul usp q1 cat = Inl e \<longrightarrow> run ul usp q2 cat = Inl e)"
  using assms
  by (auto simp: run_def Let_def split: if_splits sum.splits list.splits)

theorem equal_lowercase_same_outcome_witness:
  "lower (map ascii_lower) ''PRODUCT search'' = lower (map ascii_lower) ''product SEARCH''
   \<and> run (map ascii_lower) (split_from []) ''PRODUCT search'' [product_search, revenue_analytics]
       = Inr (Recommendation
          \<lparr>recommended_repository = Some ''Product Search'',
           res_tool_name = Some ''product-search'',
           res_tool_type = Some ''search'',
           res_description =
             Some ''Search service for product information, inventory, and catalog data'',
           confidence = ''high'',
           alternative_repositories = None\<rparr>)
   \<and> run (map ascii_lower) (split_from []) ''product SEARCH'' [product_search, revenue_analytics]
       = Inr (Recommendation
          \<lparr>recommended_repository = Some ''Product Search'',
           res_tool_name = Some ''product-search'',
           res_tool_type = Some ''search'',
           res_description =
             Some ''Search service for product information, inventory, and catalog data'',
           confidence = ''high'',
           alternative_repositories = None\<rparr>)"
proof -
  let ?r = "\<lparr>recommended_repository = Some ''Product Search'',
           res_tool_name = Some ''product-search'',
           res_tool_type = Some ''search'',
           res_description =
             Some ''Search service for product information, inventory, and catalog data'',
           confidence = ''high'',
           alternative_repositories = None\<rparr>"
  have a: "lower (map ascii_lower) ''PRODUCT search'' = lower (map ascii_lower) ''product SEARCH''" by code_simp
  have b: "run (map ascii_lower) (split_from []) ''PRODUCT search'' [product_search, revenue_analytics] = Inr (Recommendation ?r)"
    by code_simp
  from equal_lowercase_same_outcome [OF a, of "split_from []" "[product_search, revenue_analytics]"]
  have "\<forall>r. run (map ascii_lower) (split_from []) ''PRODUCT search'' [product_search, revenue_analytics] = Inr (Recommendation r)
          \<longrightarrow> run (map ascii_lower) (split_from []) ''product SEARCH'' [product_search, revenue_analytics] = Inr (Recommendation r)"
    by (elim conjE)
  from this [rule_format, OF b] a b show ?thesis by (intro conjI)
qed

text \<open>
  The claim as stated asks for identical results on every catalog. It fails where no
  descriptor matches, since the message repeats the query with its original case.
\<close>

theorem equal_lowercase_counterexample:
  "lower (map ascii_lower) ''PRODUCT search'' = lower (map ascii_lower) ''product SEARCH''
   \<and> run (map ascii_lower) (split_from []) ''PRODUCT search'' [revenue_analytics] \<noteq> run (map ascii_lower) (split_from []) ''product SEARCH'' [revenue_analytics]"
proof -
  have a: "lower (map ascii_lower) ''PRODUCT search'' = lower (map ascii_lower) ''product SEARCH''" by code_simp
  have b: "run (map ascii_lower) (split_from []) ''PRODUCT search'' [revenue_analytics]
             = Inr (NoMatchFound ''PRODUCT search'' [''Revenue Analytics''])"
    by code_simp
  have c: "run (map ascii_lower) (split_from []) ''product SEARCH'' [revenue_analytics]
             = Inr (NoMatchFound ''product SEARCH'' [''Revenue Analytics''])"
    by code_simp
  have "run (map ascii_lower) (split_from []) ''PRODUCT search'' [revenue_analytics] \<noteq> run (map ascii_lower) (split_from []) ''product SEARCH'' [revenue_analytics]"
    unfolding b c by simp
  with a show ?thesis by (intro conjI)
qed

subsection \<open>No match\<close>

lemma names_all_present:
  "\<forall>repo \<in> set cat. repo ''name'' \<noteq> None
     \<Longrightarrow> names cat = Inr (map (\<lambda>repo. the (repo ''name'')) cat)"
  by (induction cat) auto

lemma names_one_missing:
  "\<exists>repo \<in> set cat. repo ''name'' = None \<Longrightarrow> names cat = Inl (KeyError ''name'')"
proof (induction cat)
  case Nil
  then show ?case by simp
next
  case (Cons r rs)
  show ?case
  proof (cases "r ''name''")
    case None
    then show ?thesis by simp
  next
    case (Some n)
    with Cons.prems have "\<exists>repo \<in> set rs. repo ''name'' = None" by auto
    then have "names rs = Inl (KeyError ''name'')" by (rule Cons.IH)
    with Some show ?thesis by simp
  qed
qed

lemma run_no_match:
  assumes "cat \<noteq> []" and "\<forall>repo \<in> set cat. score_repo ul usp (lower ul q) repo = 0"
      and "\<forall>repo \<in> set cat. repo ''name'' \<noteq> None"
  shows "run ul usp q cat = Inr (NoMatchFound q (map (\<lambda>repo. the (repo ''name'')) cat))"
proof -
  have "recommendations ul usp (lower ul q) cat = []"
    using assms(2) by (simp add: recommendations_Nil_iff)
  with assms(1) names_all_present [OF assms(3)] show ?thesis
    by (simp add: run_def Let_def)
qed

lemma run_no_match_missing_name:
  assumes "cat \<noteq> []" and "\<forall>repo \<in> set cat. score_repo ul usp (lower ul q) repo = 0"
      and "\<exists>repo \<in> set cat. repo ''name'' = None"
  shows "run ul usp q cat = Inl (KeyError ''name'')"
proof -
  have "recommendations ul usp (lower ul q) cat = []"
    using assms(2) by (simp add: recommendations_Nil_iff)
  with assms(1) names_one_missing [OF assms(3)] show ?thesis
    by (simp add: run_def Let_def)
qed

text \<open>
  Claim C1. The scoring reads every key with \<^verbatim>\<open>get\<close> and a default, but the
  no-match message subscripts \<^verbatim>\<open>r['name']\<close>: with a descriptor that has no name
  and a query that matches nothing, \<^verbatim>\<open>_run\<close> raises \<^verbatim>\<open>KeyError\<close> instead of
  returning the message.
\<close>

theorem no_match_without_name_raises:
  "run ul usp ''weather forecast''
     [product_search,
      [''description'' \<mapsto> ''Semantic view for revenue analysis'',
       ''tool_name'' \<mapsto> ''revenue-semantic-view'',
       ''tool_type'' \<mapsto> ''analyst'']]
   = Inl (KeyError ''name'')"
  by code_simp

subsection \<open>Two scenarios on the default catalog\<close>

text \<open>
  Claim C2, as the code has it. For the query \<^verbatim>\<open>Can you search our product catalog?\<close>
  a token occurs in the description of Product Search (+2), a token occurs in its name
  (+1) and the search bonus applies (+2): the score is 5, the other descriptor scores 0,
  and the confidence is \<open>high\<close>.
\<close>

theorem search_catalog_scenario:
  "list_ex (\<lambda>keyword. str_in keyword (lower ul (get_default product_search ''description'' [])))
      (split usp (lower ul ''Can you search our product catalog?''))
   \<and> list_ex (\<lambda>keyword. str_in keyword (lower ul (get_default product_search ''name'' [])))
      (split usp (lower ul ''Can you search our product catalog?''))
   \<and> type_bonus (lower ul (get_default product_search ''tool_type'' []))
        (lower ul ''Can you search our product catalog?'') = 2
   \<and> score_repo ul usp (lower ul ''Can you search our product catalog?'') product_search = 5
   \<and> score_repo ul usp (lower ul ''Can you search our product catalog?'') revenue_analytics = 0
   \<and> run ul usp ''Can you search our product catalog?'' [product_search, revenue_analytics]
       = Inr (Recommendation
          \<lparr>recommended_repository = Some ''Product Search'',
           res_tool_name = Some ''product-search'',
           res_tool_type = Some ''search'',
           res_description =
             Some ''Search service for product information, inventory, and catalog data'',
           confidence = ''high'',
           alternative_repositories = None\<rparr>)"
proof -
  let ?ql = "lower ul ''Can you search our product catalog?''"
  have a: "list_ex (\<lambda>keyword. str_in keyword (lower ul (get_default product_search ''description'' [])))
      (split usp ?ql)" by code_simp
  have b: "list_ex (\<lambda>keyword. str_in keyword (lower ul (get_default product_search ''name'' [])))
      (split usp ?ql)" by code_simp
  have c: "type_bonus (lower ul (get_default product_search ''tool_type'' [])) ?ql = 2" by code_simp
  have d: "score_repo ul usp ?ql product_search = 5" by code_simp
  have e: "score_repo ul usp ?ql revenue_analytics = 0" by code_simp
  have f: "run ul usp ''Can you search our product catalog?'' [product_search, revenue_analytics]
       = Inr (Recommendation
          \<lparr>recommended_repository = Some ''Product Search'',
           res_tool_name = Some ''product-search'',
           res_tool_type = Some ''search'',
           res_description =
             Some ''Search service for product information, inventory, and catalog data'',
           confidence = ''high'',
           alternative_repositories = None\<rparr>)" by code_simp
  from a b c d e f show ?thesis by (intro conjI)
qed

text \<open>The score stated in the claim is 4; the ranked list has the single score 5.\<close>

theorem search_catalog_score_counterexample:
  "map score (sort_by_score (recommendations (map ascii_lower) (split_from []) (lower (map ascii_lower) ''Can you search our product catalog?'')
        [product_search, revenue_analytics])) = [5]
   \<and> score_repo (map ascii_lower) (split_from []) (lower (map ascii_lower) ''Can you search our product catalog?'') product_search \<noteq> 4"
proof -
  have a: "map score (sort_by_score (recommendations (map ascii_lower) (split_from []) (lower (map ascii_lower) ''Can you search our product catalog?'')
        [product_search, revenue_analytics])) = [5]"
    by code_simp
  have b: "score_repo (map ascii_lower) (split_from []) (lower (map ascii_lower) ''Can you search our product catalog?'') product_search = 5"
    by code_simp
  have "score_repo (map ascii_lower) (split_from []) (lower (map ascii_lower) ''Can you search our product catalog?'') product_search \<noteq> 4"
    unfolding b by simp
  with a show ?thesis by (intro conjI)
qed

text \<open>
  Claim C3, as the code has it. For the query \<^verbatim>\<open>analyze our revenue report\<close> a token
  occurs in the description of Revenue Analytics (+2), a token occurs in its name (+1)
  and the analyst bonus applies (+2): the score is 5 and the confidence is \<open>high\<close>;
  Product Search scores 0 and is not among the scored entries.
\<close>

theorem revenue_report_scenario:
  "list_ex (\<lambda>keyword. str_in keyword (lower ul (get_default revenue_analytics ''description'' [])))
      (split usp (lower ul ''analyze our revenue report''))
   \<and> list_ex (\<lambda>keyword. str_in keyword (lower ul (get_default revenue_analytics ''name'' [])))
      (split usp (lower ul ''analyze our revenue report''))
   \<and> type_bonus (lower ul (get_default revenue_analytics ''tool_type'' []))
        (lower ul ''analyze our revenue report'') = 2
   \<and> score_repo ul usp (lower ul ''analyze our revenue report'') revenue_analytics = 5
   \<and> score_repo ul usp (lower ul ''analyze our revenue report'') product_search = 0
   \<and> recommendations ul usp (lower ul ''analyze our revenue report'') [product_search, revenue_analytics]
       = [make_recommendation revenue_analytics 5]
   \<and> run ul usp ''analyze our revenue report'' [product_search, revenue_analytics]
       = Inr (Recommendation
          \<lparr>recommended_repository = Some ''Revenue Analytics'',
           res_tool_name = Some ''revenue-semantic-view'',
           res_tool_type = Some ''analyst'',
           res_description =
             Some ''Semantic view for revenue analysis, sales data, and financial metrics'',
           confidence = ''high'',
           alternative_repositories = None\<rparr>)"
proof -
  let ?ql = "lower ul ''analyze our revenue report''"
  have a: "list_ex (\<lambda>keyword. str_in keyword (lower ul (get_default revenue_analytics ''description'' [])))
      (split usp ?ql)" by code_simp
  have b: "list_ex (\<lambda>keyword. str_in keyword (lower ul (get_default revenue_analytics ''name'' [])))
      (split usp ?ql)" by code_simp
  have c: "type_bonus (lower ul (get_default revenue_analytics ''tool_type'' [])) ?ql = 2" by code_simp
  have d: "score_repo ul usp ?ql revenue_analytics = 5" by code_simp
  have e: "score_repo ul usp ?ql product_search = 0" by code_simp
  have g: "recommendations ul usp ?ql [product_search, revenue_analytics]
       = [make_recommendation revenue_analytics 5]" by code_simp
  have f: "run ul usp ''analyze our revenue report'' [product_search, revenue_analytics]
       = Inr (Recommendation
          \<lparr>recommended_repository = Some ''Revenue Analytics'',
           res_tool_name = Some ''revenue-semantic-view'',
           res_tool_type = Some ''analyst'',
           res_description =
             Some ''Semantic view for revenue analysis, sales data, and financial metrics'',
           confidence = ''high'',
           alternative_repositories = None\<rparr>)" by code_simp
  from a b c d e g f show ?thesis by (intro conjI)
qed

text \<open>The score stated in the claim is 4; the ranked list has the single score 5.\<close>

theorem revenue_report_score_counterexample:
  "map score (sort_by_score (recommendations (map ascii_lower) (split_from []) (lower (map ascii_lower) ''analyze our revenue report'')
        [product_search, revenue_analytics])) = [5]
   \<and> score_repo (map ascii_lower) (split_from []) (lower (map ascii_lower) ''analyze our revenue report'') revenue_analytics \<noteq> 4"
proof -
  have a: "map score (sort_by_score (recommendations (map ascii_lower) (split_from []) (lower (map ascii_lower) ''analyze our revenue report'')
        [product_search, revenue_analytics])) = [5]"
    by code_simp
  have b: "score_repo (map ascii_lower) (split_from []) (lower (map ascii_lower) ''analyze our revenue report'') revenue_analytics = 5"
    by code_simp
  have "score_repo (map ascii_lower) (split_from []) (lower (map ascii_lower) ''analyze our revenue report'') revenue_analytics \<noteq> 4"
    unfolding b by simp
  with a show ?thesis by (intro conjI)
qed

end
